theory Spec2Isabelle
  imports Complex_Main
begin

section \<open>The worker of the terminal interface (aider/tui/worker.py)\<close>

text \<open>
  \<open>CoderWorker\<close> runs a \<open>Coder\<close> on a background thread with an event loop of its own.
  The embedding follows the source method by method. What the source takes from outside
  (the coder's \<open>run\<close>, \<open>Coder.create\<close>, the calls on the event loop and on the thread) is a
  parameter of the model; an exception is a value, and a method that may raise returns a
  sum whose \<open>Inl\<close> is the exception.
\<close>

subsection \<open>Python values, the coder, exceptions and messages\<close>

text \<open>The Python values the worker handles. \<open>PObj a\<close> is a reference to the object at
  address \<open>a\<close>: two references are the same object exactly when the addresses agree.\<close>

datatype pyval =
    PNone
  | PBool bool
  | PInt int
  | PStr string
  | PList "pyval list"
  | PObj nat

text \<open>Truth value of a Python value, as \<open>or\<close> tests it.\<close>

fun truthy :: "pyval \<Rightarrow> bool" where
  "truthy PNone = False"
| "truthy (PBool b) = b"
| "truthy (PInt i) = (i \<noteq> 0)"
| "truthy (PStr s) = (s \<noteq> [])"
| "truthy (PList xs) = (xs \<noteq> [])"
| "truthy (PObj a) = True"

text \<open>The attributes of a coder that the worker touches. \<open>io\<close>, \<open>args\<close>, \<open>mcp_servers\<close>
  and \<open>mcp_tools\<close> are read without a guard; \<open>edit_format\<close>, \<open>input_running\<close> and
  \<open>output_running\<close> are read through \<open>getattr\<close> with a default or \<open>hasattr\<close>, so they
  may be absent (\<open>None\<close>).\<close>

record Coder =
  io :: pyval
  args :: pyval
  mcp_servers :: pyval
  mcp_tools :: pyval
  edit_format :: "pyval option"
  input_running :: "pyval option"
  output_running :: "pyval option"

text \<open>A keyword argument of \<open>Coder.create\<close> is a plain value or a coder (\<open>from_coder\<close>).\<close>

datatype kwval = Val pyval | Obj Coder

type_synonym kwargs = "string \<rightharpoonup> kwval"

text \<open>The exception classes the source tells apart. \<open>asyncio.CancelledError\<close> derives from
  \<open>BaseException\<close>, not from \<open>Exception\<close>; \<open>SwitchCoder\<close>, \<open>RuntimeError\<close> and every other
  error (\<open>Exception\<close>, with its text) derive from \<open>Exception\<close>.\<close>

datatype exn =
    CancelledError
  | SwitchCoder kwargs
  | RuntimeError string
  | Exception string

fun isinstance_Exception :: "exn \<Rightarrow> bool" where
  "isinstance_Exception CancelledError = False"
| "isinstance_Exception (SwitchCoder kw) = True"
| "isinstance_Exception (RuntimeError m) = True"
| "isinstance_Exception (Exception m) = True"

fun isinstance_RuntimeError :: "exn \<Rightarrow> bool" where
  "isinstance_RuntimeError (RuntimeError m) = True"
| "isinstance_RuntimeError CancelledError = False"
| "isinstance_RuntimeError (SwitchCoder kw) = False"
| "isinstance_RuntimeError (Exception m) = False"

text \<open>\<open>str(e)\<close>: the text the exception was built with (none for a cancellation and for
  \<open>SwitchCoder\<close>, which carries keyword arguments only).\<close>

fun str_exn :: "exn \<Rightarrow> string" where
  "str_exn CancelledError = []"
| "str_exn (SwitchCoder kw) = []"
| "str_exn (RuntimeError m) = m"
| "str_exn (Exception m) = m"

text \<open>The two dictionaries the worker puts on the output queue:
  \<open>{'type': 'mode_change', 'mode': m}\<close> and \<open>{'type': 'error', 'message': t}\<close>.\<close>

datatype message =
    Mode_change (mode: pyval)
  | Error (message: string)

subsection \<open>The worker object\<close>

record Thread =
  daemon :: bool
  alive :: bool

record Task =
  task_id :: nat
  cancel_requested :: bool

text \<open>What the worker reads and changes of its event loop: whether it is closed, whether
  it is running, whether a call of its \<open>stop\<close> has been scheduled, and its tasks that are
  not done, each with the request to cancel it.\<close>

record EventLoop =
  closed :: bool
  is_running :: bool
  stop_requested :: bool
  all_tasks :: "Task list"

text \<open>The fields of \<open>CoderWorker\<close>. \<open>threads\<close> is the store of the \<open>Thread\<close> objects created
  so far, in order of creation; the field \<open>thread\<close> holds the address of one of them. A
  queue is the list of its items, oldest first: \<open>put\<close> appends at the end.\<close>

record CoderWorker =
  coder :: Coder
  output_queue :: "message list"
  input_queue :: "pyval list"
  threads :: "Thread list"
  thread :: "nat option"
  loop :: "EventLoop option"
  running :: bool

definition put :: "message \<Rightarrow> CoderWorker \<Rightarrow> CoderWorker" where
  "put m w = w\<lparr>output_queue := output_queue w @ [m]\<rparr>"

subsection \<open>The coder loop: \<open>_async_run\<close>\<close>

text \<open>Lines 97 to 109: the keyword arguments of \<open>Coder.create\<close>, built from the current coder
  and the arguments \<open>ov\<close> that the \<open>SwitchCoder\<close> carries.\<close>

definition switch_kwargs :: "kwargs \<Rightarrow> Coder \<Rightarrow> kwargs" where
  "switch_kwargs ov c =
     (let kw1 = [''io'' \<mapsto> Val (io c), ''from_coder'' \<mapsto> Obj c];
          kw2 = kw1 ++ ov;
          kw3 = (if kw2 ''show_announcements'' \<noteq> None
                 then kw2(''show_announcements'' := None) else kw2);
          kw4 = kw3(''num_cache_warming_pings'' \<mapsto> Val (PInt 0));
          kw5 = kw4(''args'' \<mapsto> Val (args c));
          kw6 = kw5(''summarize_from_coder'' \<mapsto> Val (PBool False))
      in kw6(''mcp_servers'' \<mapsto> Val (PList [])))"

text \<open>Line 116: \<open>getattr(self.coder, 'edit_format', 'code') or 'code'\<close>.\<close>

definition mode_of :: "Coder \<Rightarrow> pyval" where
  "mode_of c =
     (let v = (case edit_format c of None \<Rightarrow> PStr ''code'' | Some x \<Rightarrow> x)
      in if truthy v then v else PStr ''code'')"

text \<open>Lines 97 to 120, the body of the inner \<open>try\<close>. \<open>create\<close> is what
  \<open>await Coder.create(**kwargs)\<close> does: it returns the new coder or raises. The field
  \<open>coder\<close> is assigned only when \<open>create\<close> has returned.\<close>

definition swap :: "(kwargs \<Rightarrow> exn + Coder) \<Rightarrow> kwargs \<Rightarrow> CoderWorker \<Rightarrow> exn + CoderWorker" where
  "swap create ov w =
     (let kw = switch_kwargs ov (coder w);
          old_mcp_servers = mcp_servers (coder w);
          old_mcp_tools = mcp_tools (coder w)
      in case create kw of
           Inl e \<Rightarrow> Inl e
         | Inr c \<Rightarrow>
             (let c' = c\<lparr>mcp_servers := old_mcp_servers, mcp_tools := old_mcp_tools\<rparr>
              in Inr (put (Mode_change (mode_of c')) (w\<lparr>coder := c'\<rparr>))))"

text \<open>How one pass through the \<open>while\<close> body ends: \<open>Break\<close> leaves the loop, \<open>Continue\<close>
  goes back to the test, \<open>Propagate\<close> is an exception that no handler of the loop catches.\<close>

datatype ctl = Break CoderWorker | Continue CoderWorker | Propagate exn CoderWorker

text \<open>Lines 94 to 127: the handler of \<open>SwitchCoder\<close>. The inner \<open>except Exception\<close> puts
  the error message and breaks; an exception that is not an \<open>Exception\<close> leaves the
  coroutine.\<close>

definition on_switch :: "(kwargs \<Rightarrow> exn + Coder) \<Rightarrow> kwargs \<Rightarrow> CoderWorker \<Rightarrow> ctl" where
  "on_switch create ov w =
     (case swap create ov w of
        Inr w' \<Rightarrow> Continue w'
      | Inl e \<Rightarrow>
          if isinstance_Exception e
          then Break (put (Error (''Failed to switch mode: '' @ str_exn e)) w)
          else Propagate e w)"

text \<open>Lines 92 to 133: the \<open>except\<close> clauses of the outer \<open>try\<close>, in the order of the
  source.\<close>

fun on_raise :: "(kwargs \<Rightarrow> exn + Coder) \<Rightarrow> exn \<Rightarrow> CoderWorker \<Rightarrow> ctl" where
  "on_raise create CancelledError w = Break w"
| "on_raise create (SwitchCoder ov) w = on_switch create ov w"
| "on_raise create (RuntimeError m) w = Break (put (Error (str_exn (RuntimeError m))) w)"
| "on_raise create (Exception m) w = Break (put (Error (str_exn (Exception m))) w)"

text \<open>What the surroundings do during one pass of the loop: whether the foreground has
  called \<open>stop\<close> (clearing \<open>running\<close>) before the test of the \<open>while\<close>; how
  \<open>await self.coder.run()\<close> ends (\<open>None\<close>: it returns; \<open>Some e\<close>: it raises \<open>e\<close>); and
  what \<open>Coder.create\<close> does on the keyword arguments it is given.\<close>

record pass =
  stop_called :: bool
  run_result :: "exn option"
  create_result :: "kwargs \<Rightarrow> exn + Coder"

definition loop_body :: "pass \<Rightarrow> CoderWorker \<Rightarrow> ctl" where
  "loop_body p w =
     (case run_result p of
        None \<Rightarrow> Break w
      | Some e \<Rightarrow> on_raise (create_result p) e w)"

text \<open>How \<open>_async_run\<close> stands after the passes observed so far: it has returned, it has
  raised, or it is still waiting in an \<open>await\<close>.\<close>

datatype outcome = Finished CoderWorker | Raised exn CoderWorker | Awaiting CoderWorker

fun state_of :: "outcome \<Rightarrow> CoderWorker" where
  "state_of (Finished w) = w"
| "state_of (Raised e w) = w"
| "state_of (Awaiting w) = w"

text \<open>Lines 86 to 133. The loop runs as long as the surroundings provide passes; a
  coder that never returns from \<open>run\<close> leaves the worker \<open>Awaiting\<close>.\<close>

fun async_run :: "pass list \<Rightarrow> CoderWorker \<Rightarrow> outcome" where
  "async_run [] w = (if running w then Awaiting w else Finished w)"
| "async_run (p # ps) w =
     (let w0 = (if stop_called p then w\<lparr>running := False\<rparr> else w)
      in if \<not> running w0 then Finished w0
         else case loop_body p w0 of
                Break w1 \<Rightarrow> Finished w1
              | Continue w1 \<Rightarrow> async_run ps w1
              | Propagate e w1 \<Rightarrow> Raised e w1)"

subsection \<open>\<open>start\<close> and \<open>stop\<close>\<close>

text \<open>Lines 23 to 36: the constructor.\<close>

definition init :: "Coder \<Rightarrow> message list \<Rightarrow> pyval list \<Rightarrow> CoderWorker" where
  "init c oq iq =
     \<lparr>coder = c, output_queue = oq, input_queue = iq, threads = [],
      thread = None, loop = None, running = False\<rparr>"

text \<open>Lines 38 to 42. \<open>threading.Thread(target=self._run_thread, daemon=True)\<close> creates
  a new thread object, \<open>start()\<close> on it makes it alive; the call does not wait for it.\<close>

definition start :: "CoderWorker \<Rightarrow> CoderWorker" where
  "start w =
     w\<lparr>running := True,
       threads := threads w @ [\<lparr>daemon = True, alive = True\<rparr>],
       thread := Some (length (threads w))\<rparr>"

text \<open>Lines 139 to 143: the two flags of the coder are cleared where the coder has them.\<close>

definition signal_coder :: "Coder \<Rightarrow> Coder" where
  "signal_coder c =
     (let c1 = (if input_running c \<noteq> None then c\<lparr>input_running := Some (PBool False)\<rparr> else c)
      in if output_running c1 \<noteq> None then c1\<lparr>output_running := Some (PBool False)\<rparr> else c1)"

text \<open>Lines 145 to 150. \<open>call_soon_stop\<close> tells whether
  \<open>self.loop.call_soon_threadsafe(self.loop.stop)\<close> raises, and what; a \<open>RuntimeError\<close>
  is passed over, any other exception leaves \<open>stop\<close>.\<close>

definition request_loop_stop ::
  "(EventLoop \<Rightarrow> exn option) \<Rightarrow> CoderWorker \<Rightarrow> exn + CoderWorker" where
  "request_loop_stop call_soon_stop w =
     (case loop w of
        None \<Rightarrow> Inr w
      | Some l \<Rightarrow>
          if is_running l
          then (case call_soon_stop l of
                  None \<Rightarrow> Inr (w\<lparr>loop := Some (l\<lparr>stop_requested := True\<rparr>)\<rparr>)
                | Some e \<Rightarrow> if isinstance_RuntimeError e then Inr w else Inl e)
          else Inr w)"

text \<open>Lines 152 to 154. \<open>join t th\<close> tells whether \<open>th.join(timeout=t)\<close> sees the thread
  \<open>th\<close> end: the call comes back when the thread has ended or when \<open>t\<close> seconds have
  passed, whichever is first. The source passes the constant \<open>2.0\<close>. The field
  \<open>thread\<close> is written by \<open>start\<close> only, with the address of the thread it has just
  created, so an address outside the store does not occur; the model leaves the worker
  as it is there.\<close>

definition join_thread :: "(real \<Rightarrow> Thread \<Rightarrow> bool) \<Rightarrow> CoderWorker \<Rightarrow> CoderWorker" where
  "join_thread join w =
     (case thread w of
        None \<Rightarrow> w
      | Some a \<Rightarrow>
          if a < length (threads w) \<and> alive (threads w ! a)
          then w\<lparr>threads := (threads w)[a := (threads w ! a)\<lparr>alive := \<not> join 2 (threads w ! a)\<rparr>]\<rparr>
          else w)"

text \<open>Lines 135 to 154: \<open>stop(self)\<close>. It has no parameter besides \<open>self\<close>.\<close>

definition stop ::
  "(EventLoop \<Rightarrow> exn option) \<Rightarrow> (real \<Rightarrow> Thread \<Rightarrow> bool) \<Rightarrow> CoderWorker
     \<Rightarrow> exn + CoderWorker" where
  "stop call_soon_stop join w =
     (let w1 = w\<lparr>running := False\<rparr>;
          w2 = w1\<lparr>coder := signal_coder (coder w1)\<rparr>
      in case request_loop_stop call_soon_stop w2 of
           Inl e \<Rightarrow> Inl e
         | Inr w3 \<Rightarrow> Inr (join_thread join w3))"

subsection \<open>The end of the event loop: \<open>_cleanup_loop\<close>\<close>






subsection \<open>Runs of successful swaps\<close>

text \<open>The passes \<open>ps\<close>, taken from the worker \<open>w\<close>, are swaps that all succeed: no pass
  is preceded by a \<open>stop\<close>, and every pass goes back to the test of the loop.\<close>

fun successful_swaps :: "pass list \<Rightarrow> CoderWorker \<Rightarrow> bool" where
  "successful_swaps [] w = True"
| "successful_swaps (p # ps) w =
     (\<not> stop_called p \<and>
      (case loop_body p w of
         Continue w' \<Rightarrow> successful_swaps ps w'
       | Break w' \<Rightarrow> False
       | Propagate e w' \<Rightarrow> False))"

text \<open>The coders that the passes make current, one after the other.\<close>

fun new_coders :: "pass list \<Rightarrow> CoderWorker \<Rightarrow> Coder list" where
  "new_coders [] w = []"
| "new_coders (p # ps) w =
     (case loop_body p w of
        Continue w' \<Rightarrow> coder w' # new_coders ps w'
      | Break w' \<Rightarrow> []
      | Propagate e w' \<Rightarrow> [])"

subsection \<open>The specification's reading of two operations\<close>

text \<open>From the specification's words, for comparison with \<open>switch_kwargs\<close>: the
  parameters of the current session (\<open>io\<close>, \<open>from_coder\<close>, \<open>args\<close>) merged with the
  overrides, the overrides winning on every key, then warm-up disabled, summarization
  skipped and an empty placeholder for the servers.\<close>

definition spec_kwargs :: "kwargs \<Rightarrow> Coder \<Rightarrow> kwargs" where
  "spec_kwargs ov c =
     (let base = [''io'' \<mapsto> Val (io c), ''from_coder'' \<mapsto> Obj c, ''args'' \<mapsto> Val (args c)];
          merged = base ++ ov
      in merged(''num_cache_warming_pings'' \<mapsto> Val (PInt 0),
                ''summarize_from_coder'' \<mapsto> Val (PBool False),
                ''mcp_servers'' \<mapsto> Val (PList [])))"

text \<open>From the specification's words, for comparison with \<open>stop\<close>: \<open>stop(timeout)\<close> joins
  the thread for at most the \<open>timeout\<close> it is given.\<close>

definition spec_join_thread :: "(real \<Rightarrow> Thread \<Rightarrow> bool) \<Rightarrow> real \<Rightarrow> CoderWorker \<Rightarrow> CoderWorker" where
  "spec_join_thread join timeout w =
     (case thread w of
        None \<Rightarrow> w
      | Some a \<Rightarrow>
          if a < length (threads w) \<and> alive (threads w ! a)
          then w\<lparr>threads := (threads w)[a := (threads w ! a)\<lparr>alive := \<not> join timeout (threads w ! a)\<rparr>]\<rparr>
          else w)"

definition spec_stop ::
  "(EventLoop \<Rightarrow> exn option) \<Rightarrow> (real \<Rightarrow> Thread \<Rightarrow> bool) \<Rightarrow> real \<Rightarrow> CoderWorker
     \<Rightarrow> exn + CoderWorker" where
  "spec_stop call_soon_stop join timeout w =
     (let w1 = w\<lparr>running := False\<rparr>;
          w2 = w1\<lparr>coder := signal_coder (coder w1)\<rparr>
      in case request_loop_stop call_soon_stop w2 of
           Inl e \<Rightarrow> Inl e
         | Inr w3 \<Rightarrow> Inr (spec_join_thread join timeout w3))"

subsection \<open>Concrete coders, workers and surroundings\<close>

definition coder_ex :: Coder where
  "coder_ex =
     \<lparr>io = PObj 1, args = PObj 2, mcp_servers = PObj 3, mcp_tools = PObj 4,
      edit_format = Some (PStr ''code''), input_running = Some (PBool True),
      output_running = None\<rparr>"

text \<open>A worker that has been started once.\<close>

definition worker_ex :: CoderWorker where
  "worker_ex = start (init coder_ex [] [])"

text \<open>A \<open>Coder.create\<close> that takes the edit format from its keyword arguments and sets up
  servers and tools of its own.\<close>

definition create_ex :: "kwargs \<Rightarrow> exn + Coder" where
  "create_ex kw =
     Inr \<lparr>io = PObj 1, args = PObj 2, mcp_servers = PList [], mcp_tools = PNone,
          edit_format = (case kw ''edit_format'' of
                           None \<Rightarrow> None
                         | Some (Val v) \<Rightarrow> Some v
                         | Some (Obj c) \<Rightarrow> None),
          input_running = None, output_running = None\<rparr>"

text \<open>A \<open>Coder.create\<close> that is cancelled while it is awaited, and one that fails.\<close>

definition create_cancelled :: "kwargs \<Rightarrow> exn + Coder" where
  "create_cancelled kw = Inl CancelledError"

definition create_fails :: "kwargs \<Rightarrow> exn + Coder" where
  "create_fails kw = Inl (Exception ''unknown edit format'')"

definition ov_architect :: kwargs where
  "ov_architect = [''edit_format'' \<mapsto> Val (PStr ''architect'')]"

definition ov_ask :: kwargs where
  "ov_ask = [''edit_format'' \<mapsto> Val (PStr ''ask''), ''show_announcements'' \<mapsto> Val (PBool True)]"

definition ov_empty_format :: kwargs where
  "ov_empty_format = [''edit_format'' \<mapsto> Val (PStr [])]"

definition ov_args :: kwargs where
  "ov_args = [''args'' \<mapsto> Val (PInt 1)]"

definition pass_switch :: "kwargs \<Rightarrow> (kwargs \<Rightarrow> exn + Coder) \<Rightarrow> pass" where
  "pass_switch ov create = \<lparr>stop_called = False, run_result = Some (SwitchCoder ov), create_result = create\<rparr>"

definition pass_error :: pass where
  "pass_error = \<lparr>stop_called = False, run_result = Some (Exception ''boom''), create_result = create_ex\<rparr>"

text \<open>Calls on the event loop as asyncio documents them: scheduling on a closed loop and
  closing a running loop raise \<open>RuntimeError\<close>.\<close>

definition call_soon_ex :: "EventLoop \<Rightarrow> exn option" where
  "call_soon_ex l = (if closed l then Some (RuntimeError ''Event loop is closed'') else None)"





definition loop_ex :: EventLoop where
  "loop_ex =
     \<lparr>closed = False, is_running = True, stop_requested = False,
      all_tasks = [\<lparr>task_id = 0, cancel_requested = False\<rparr>, \<lparr>task_id = 1, cancel_requested = False\<rparr>]\<rparr>"


text \<open>A worker thread that needs a second and a half to end.\<close>

definition join_ex :: "real \<Rightarrow> Thread \<Rightarrow> bool" where
  "join_ex t th = (3 / 2 \<le> t)"

section \<open>Properties\<close>

subsection \<open>Facts about the pieces\<close>

lemma swap_Inr_iff:
  "swap create ov w = Inr w' \<longleftrightarrow>
     (\<exists>c. create (switch_kwargs ov (coder w)) = Inr c \<and>
          w' = w\<lparr>coder := c\<lparr>mcp_servers := mcp_servers (coder w), mcp_tools := mcp_tools (coder w)\<rparr>,
                 output_queue := output_queue w @
                   [Mode_change (mode_of (c\<lparr>mcp_servers := mcp_servers (coder w),
                                            mcp_tools := mcp_tools (coder w)\<rparr>))]\<rparr>)"
  by (auto simp: swap_def put_def Let_def split: sum.splits)

lemma swap_Inl_iff:
  "swap create ov w = Inl e \<longleftrightarrow> create (switch_kwargs ov (coder w)) = Inl e"
  by (simp add: swap_def Let_def split: sum.splits)

lemma swap_frame:
  assumes "swap create ov w = Inr w'"
  shows "running w' = running w"
    and "output_queue w' = output_queue w @ [Mode_change (mode_of (coder w'))]"
    and "mcp_servers (coder w') = mcp_servers (coder w)"
    and "mcp_tools (coder w') = mcp_tools (coder w)"
  using assms by (auto simp: swap_Inr_iff)

lemma loop_body_Continue:
  "loop_body p w = Continue w' \<longleftrightarrow>
     (\<exists>ov. run_result p = Some (SwitchCoder ov) \<and> swap (create_result p) ov w = Inr w')"
proof (cases "run_result p")
  case None
  then show ?thesis by (simp add: loop_body_def)
next
  case (Some e)
  then show ?thesis
    by (cases e) (auto simp: loop_body_def on_switch_def split: sum.splits)
qed

text \<open>A pass that does not swap leaves the coder as it is.\<close>

lemma loop_body_coder:
  "loop_body p w = Break w' \<Longrightarrow> coder w' = coder w"
  "loop_body p w = Propagate e w' \<Longrightarrow> coder w' = coder w"
proof -
  show "loop_body p w = Break w' \<Longrightarrow> coder w' = coder w"
  proof (cases "run_result p")
    case None
    assume "loop_body p w = Break w'"
    with None show ?thesis by (simp add: loop_body_def)
  next
    case (Some x)
    assume "loop_body p w = Break w'"
    with Some show ?thesis
      by (cases x) (auto simp: loop_body_def on_switch_def put_def split: sum.splits if_splits)
  qed
  show "loop_body p w = Propagate e w' \<Longrightarrow> coder w' = coder w"
  proof (cases "run_result p")
    case None
    assume "loop_body p w = Propagate e w'"
    with None show ?thesis by (simp add: loop_body_def)
  next
    case (Some x)
    assume "loop_body p w = Propagate e w'"
    with Some show ?thesis
      by (cases x) (auto simp: loop_body_def on_switch_def put_def split: sum.splits if_splits)
  qed
qed

text \<open>Whatever the coders and \<open>Coder.create\<close> do, and however long the worker runs, the
  servers and tools of the current coder are those of the first coder.\<close>

lemma async_run_keeps_mcp:
  "mcp_servers (coder (state_of (async_run ps w))) = mcp_servers (coder w) \<and>
   mcp_tools (coder (state_of (async_run ps w))) = mcp_tools (coder w)"
proof (induction ps arbitrary: w)
  case Nil
  show ?case by simp
next
  case (Cons p ps)
  let ?w0 = "if stop_called p then w\<lparr>running := False\<rparr> else w"
  have c0: "coder ?w0 = coder w" by simp
  show ?case
  proof (cases "running ?w0")
    case False
    then show ?thesis by (simp add: Let_def)
  next
    case True
    show ?thesis
    proof (cases "loop_body p ?w0")
      case (Break w1)
      with True loop_body_coder(1)[OF Break] c0 show ?thesis by (simp add: Let_def)
    next
      case (Continue w1)
      then obtain ov where "swap (create_result p) ov ?w0 = Inr w1"
        by (auto simp: loop_body_Continue)
      then have "mcp_servers (coder w1) = mcp_servers (coder w)"
        "mcp_tools (coder w1) = mcp_tools (coder w)"
        using swap_frame(3,4) c0 by metis+
      with True Continue Cons.IH[of w1] show ?thesis by (simp add: Let_def)
    next
      case (Propagate e w1)
      with True loop_body_coder(2)[OF Propagate] c0 show ?thesis by (simp add: Let_def)
    qed
  qed
qed

lemma start_fields:
  "threads (start w) = threads w @ [\<lparr>daemon = True, alive = True\<rparr>]"
  "coder (start w) = coder w"
  "output_queue (start w) = output_queue w"
  "input_queue (start w) = input_queue w"
  "loop (start w) = loop w"
  by (simp_all add: start_def)




lemma request_loop_stop_cases:
  assumes "\<forall>l e. call_soon_stop l = Some e \<longrightarrow> isinstance_RuntimeError e"
  shows "\<exists>w'. request_loop_stop call_soon_stop w = Inr w' \<and>
           coder w' = coder w \<and> running w' = running w \<and> threads w' = threads w \<and>
           thread w' = thread w \<and> output_queue w' = output_queue w \<and>
           loop w' = (case loop w of
                        None \<Rightarrow> None
                      | Some l \<Rightarrow> if is_running l \<and> call_soon_stop l = None
                                   then Some (l\<lparr>stop_requested := True\<rparr>) else Some l)"
  using assms by (auto simp: request_loop_stop_def split: option.splits)

lemma join_thread_frame:
  "coder (join_thread join w) = coder w"
  "running (join_thread join w) = running w"
  "loop (join_thread join w) = loop w"
  "output_queue (join_thread join w) = output_queue w"
  by (simp_all add: join_thread_def split: option.splits)

lemma stop_once:
  assumes cs: "\<forall>l e. call_soon_stop l = Some e \<longrightarrow> isinstance_RuntimeError e"
  shows "\<exists>w'. stop call_soon_stop join w = Inr w' \<and>
           \<not> running w' \<and>
           coder w' = signal_coder (coder w) \<and>
           output_queue w' = output_queue w \<and>
           loop w' = (case loop w of
                        None \<Rightarrow> None
                      | Some l \<Rightarrow> if is_running l \<and> call_soon_stop l = None
                                   then Some (l\<lparr>stop_requested := True\<rparr>) else Some l) \<and>
           threads w' = (case thread w of
                           None \<Rightarrow> threads w
                         | Some a \<Rightarrow>
                             if a < length (threads w) \<and> alive (threads w ! a)
                             then (threads w)[a := (threads w ! a)\<lparr>alive := \<not> join 2 (threads w ! a)\<rparr>]
                             else threads w)"
proof -
  let ?w2 = "w\<lparr>running := False, coder := signal_coder (coder w)\<rparr>"
  from request_loop_stop_cases[OF cs, of ?w2] obtain w3 where
    w3: "request_loop_stop call_soon_stop ?w2 = Inr w3" "coder w3 = signal_coder (coder w)"
      "\<not> running w3" "threads w3 = threads w" "thread w3 = thread w"
      "output_queue w3 = output_queue w"
      "loop w3 = (case loop w of
                    None \<Rightarrow> None
                  | Some l \<Rightarrow> if is_running l \<and> call_soon_stop l = None
                               then Some (l\<lparr>stop_requested := True\<rparr>) else Some l)"
    by auto
  have "stop call_soon_stop join w = Inr (join_thread join w3)"
    using w3(1) by (simp add: stop_def Let_def)
  moreover have "threads (join_thread join w3) =
      (case thread w of
         None \<Rightarrow> threads w
       | Some a \<Rightarrow>
           if a < length (threads w) \<and> alive (threads w ! a)
           then (threads w)[a := (threads w ! a)\<lparr>alive := \<not> join 2 (threads w ! a)\<rparr>]
           else threads w)"
    using w3(4,5) by (simp add: join_thread_def split: option.splits)
  ultimately show ?thesis using w3 by (simp add: join_thread_frame)
qed

subsection \<open>The swap keeps the servers and tools\<close>

text \<open>Claim C1. After every successful swap the \<open>mcp_servers\<close> and \<open>mcp_tools\<close> of the
  current coder are the very values the outgoing coder held, not those that
  \<open>Coder.create\<close> has set up; and the coder that becomes current is exactly the one that
  \<open>Coder.create\<close> returned with these two attributes assigned: the assignment follows the
  construction within the same pass, with no \<open>await\<close> between them.\<close>

theorem swap_keeps_mcp_handles:
  assumes "swap create ov w = Inr w'"
  shows "mcp_servers (coder w') = mcp_servers (coder w) \<and>
         mcp_tools (coder w') = mcp_tools (coder w) \<and>
         (\<exists>c. create (switch_kwargs ov (coder w)) = Inr c \<and>
              coder w' = c\<lparr>mcp_servers := mcp_servers (coder w),
                            mcp_tools := mcp_tools (coder w)\<rparr>)"
  using assms by (auto simp: swap_Inr_iff)

theorem swap_keeps_mcp_handles_witness:
  "\<exists>w'. swap create_ex ov_architect worker_ex = Inr w' \<and>
        mcp_servers (coder w') = PObj 3 \<and> mcp_tools (coder w') = PObj 4 \<and>
        edit_format (coder w') = Some (PStr ''architect'')"
proof -
  obtain w' where s: "swap create_ex ov_architect worker_ex = Inr w'"
    by (simp add: swap_def create_ex_def Let_def)
  have k: "switch_kwargs ov_architect c ''edit_format'' = Some (Val (PStr ''architect''))" for c
    by (simp add: switch_kwargs_def ov_architect_def Let_def)
  from swap_keeps_mcp_handles[OF s] s show ?thesis
    by (auto simp: worker_ex_def start_def init_def coder_ex_def create_ex_def k)
qed

subsection \<open>\<open>stop\<close>\<close>

text \<open>Claim C2, as the source has it. \<open>stop\<close> takes no timeout. Whenever scheduling the
  stop of the loop raises nothing but \<open>RuntimeError\<close>, \<open>stop\<close> returns; then \<open>running\<close> is
  false, the coder's flags are cleared where present, the stop of the loop has been
  requested exactly when there is a loop, it is running and the request did not raise,
  and the thread, when there is one and it is alive, has been joined with the fixed
  timeout of two seconds and is still alive exactly when that join did not see it end.
  A second call returns as well.\<close>

theorem stop_joins_two_seconds:
  assumes cs: "\<forall>l e. call_soon_stop l = Some e \<longrightarrow> isinstance_RuntimeError e"
  shows "\<exists>w'. stop call_soon_stop join w = Inr w' \<and>
           \<not> running w' \<and>
           coder w' = signal_coder (coder w) \<and>
           output_queue w' = output_queue w \<and>
           loop w' = (case loop w of
                        None \<Rightarrow> None
                      | Some l \<Rightarrow> if is_running l \<and> call_soon_stop l = None
                                   then Some (l\<lparr>stop_requested := True\<rparr>) else Some l) \<and>
           threads w' = (case thread w of
                           None \<Rightarrow> threads w
                         | Some a \<Rightarrow>
                             if a < length (threads w) \<and> alive (threads w ! a)
                             then (threads w)[a := (threads w ! a)\<lparr>alive := \<not> join 2 (threads w ! a)\<rparr>]
                             else threads w) \<and>
           (\<exists>w''. stop call_soon_stop join w' = Inr w'' \<and> \<not> running w'')"
proof -
  from stop_once[OF cs, of join w] obtain w' where
    w': "stop call_soon_stop join w = Inr w'" by blast
  from stop_once[OF cs, of join w'] obtain w'' where
    "stop call_soon_stop join w' = Inr w'' \<and> \<not> running w''" by blast
  with stop_once[OF cs, of join w] w' show ?thesis by auto
qed

theorem stop_joins_two_seconds_witness:
  "\<exists>w'. stop call_soon_ex join_ex (worker_ex\<lparr>loop := Some loop_ex\<rparr>) = Inr w' \<and>
        \<not> running w' \<and>
        loop w' = Some (loop_ex\<lparr>stop_requested := True\<rparr>) \<and>
        threads w' = [\<lparr>daemon = True, alive = False\<rparr>] \<and>
        input_running (coder w') = Some (PBool False)"
proof -
  have cs: "\<forall>l e. call_soon_ex l = Some e \<longrightarrow> isinstance_RuntimeError e"
    by (simp add: call_soon_ex_def)
  from stop_joins_two_seconds[OF cs, of join_ex "worker_ex\<lparr>loop := Some loop_ex\<rparr>"]
  obtain w' where a: "stop call_soon_ex join_ex (worker_ex\<lparr>loop := Some loop_ex\<rparr>) = Inr w'"
    and b: "\<not> running w'"
    and c: "coder w' = signal_coder (coder (worker_ex\<lparr>loop := Some loop_ex\<rparr>))"
    and d: "loop w' = (case loop (worker_ex\<lparr>loop := Some loop_ex\<rparr>) of
                        None \<Rightarrow> None
                      | Some l \<Rightarrow> if is_running l \<and> call_soon_ex l = None
                                   then Some (l\<lparr>stop_requested := True\<rparr>) else Some l)"
    and e: "threads w' = (case thread (worker_ex\<lparr>loop := Some loop_ex\<rparr>) of
                           None \<Rightarrow> threads (worker_ex\<lparr>loop := Some loop_ex\<rparr>)
                         | Some a \<Rightarrow>
                             if a < length (threads (worker_ex\<lparr>loop := Some loop_ex\<rparr>)) \<and>
                                alive (threads (worker_ex\<lparr>loop := Some loop_ex\<rparr>) ! a)
                             then (threads (worker_ex\<lparr>loop := Some loop_ex\<rparr>))
                                    [a := (threads (worker_ex\<lparr>loop := Some loop_ex\<rparr>) ! a)
                                       \<lparr>alive := \<not> join_ex 2 (threads (worker_ex\<lparr>loop := Some loop_ex\<rparr>) ! a)\<rparr>]
                             else threads (worker_ex\<lparr>loop := Some loop_ex\<rparr>))"
    by blast
  have "loop w' = Some (loop_ex\<lparr>stop_requested := True\<rparr>)"
    using d by (simp add: loop_ex_def call_soon_ex_def)
  moreover have "threads w' = [\<lparr>daemon = True, alive = False\<rparr>]"
    using e by (simp add: worker_ex_def start_def init_def join_ex_def)
  moreover have "input_running (coder w') = Some (PBool False)"
    using c by (simp add: worker_ex_def start_def init_def signal_coder_def coder_ex_def Let_def)
  ultimately show ?thesis using a b by blast
qed

text \<open>The claim as stated fails: asked to wait for at most one second for a thread that
  needs a second and a half, \<open>stop\<close> still joins for two seconds and sees the thread end,
  where a join bounded by the given second leaves it alive.\<close>

theorem stop_timeout_counterexample:
  "map alive (threads (projr (stop call_soon_ex join_ex worker_ex))) = [False] \<and>
   map alive (threads (projr (spec_stop call_soon_ex join_ex 1 worker_ex))) = [True]"
  by (simp add: stop_def spec_stop_def request_loop_stop_def join_thread_def spec_join_thread_def
      worker_ex_def start_def init_def join_ex_def Let_def)

subsection \<open>Failures\<close>

text \<open>Claim C3, as the source has it. When \<open>Coder.create\<close> raises an instance of
  \<open>Exception\<close> during a swap, the swap is given up: the queue gains exactly one error
  message, \<open>Failed to switch mode: \<close> followed by the text of the exception, the loop
  ends whatever passes would follow, and the coder is still the old one, which is not
  run again.\<close>

theorem swap_failure_aborts:
  assumes "running w" and "\<not> stop_called p"
    and "run_result p = Some (SwitchCoder ov)"
    and "create_result p (switch_kwargs ov (coder w)) = Inl e"
    and "isinstance_Exception e"
  shows "async_run (p # ps) w =
           Finished (w\<lparr>output_queue := output_queue w @
                          [Error (''Failed to switch mode: '' @ str_exn e)]\<rparr>)"
proof -
  have "swap (create_result p) ov w = Inl e"
    using assms(4) by (simp add: swap_Inl_iff)
  with assms show ?thesis
    by (simp add: loop_body_def on_switch_def put_def)
qed

theorem swap_failure_aborts_witness:
  "async_run [pass_switch ov_architect create_fails, pass_error] worker_ex =
     Finished (worker_ex\<lparr>output_queue :=
                 [Error ''Failed to switch mode: unknown edit format'']\<rparr>)"
proof -
  have "async_run (pass_switch ov_architect create_fails # [pass_error]) worker_ex =
          Finished (worker_ex\<lparr>output_queue := output_queue worker_ex @
             [Error (''Failed to switch mode: '' @ str_exn (Exception ''unknown edit format''))]\<rparr>)"
    by (rule swap_failure_aborts[where ov = ov_architect])
       (simp_all add: worker_ex_def start_def pass_switch_def create_fails_def)
  then show ?thesis by (simp add: worker_ex_def start_def init_def)
qed

text \<open>The claim as stated fails for a cancellation: when the task is cancelled while
  \<open>Coder.create\<close> is awaited, no message is put on the queue and the cancellation
  leaves \<open>_async_run\<close>.\<close>

theorem swap_cancelled_counterexample:
  "async_run [pass_switch ov_architect create_cancelled] worker_ex =
     Raised CancelledError worker_ex \<and>
   output_queue worker_ex = []"
  by (simp add: pass_switch_def create_cancelled_def worker_ex_def start_def init_def
      loop_body_def on_switch_def swap_def)

text \<open>Claim C4. When \<open>run\<close> raises an error that is neither a \<open>SwitchCoder\<close> nor a
  cancellation, the queue gains exactly one error message, which holds the text of the
  error, and the loop ends whatever passes would follow: there is no retry.\<close>

theorem run_error_fail_stop:
  assumes "running w" and "\<not> stop_called p"
    and "run_result p = Some e"
    and "isinstance_Exception e" and "\<forall>ov. e \<noteq> SwitchCoder ov"
  shows "async_run (p # ps) w =
           Finished (w\<lparr>output_queue := output_queue w @ [Error (str_exn e)]\<rparr>)"
  using assms by (cases e) (simp_all add: loop_body_def put_def)

theorem run_error_fail_stop_witness:
  "async_run [pass_error, pass_switch ov_architect create_ex] worker_ex =
     Finished (worker_ex\<lparr>output_queue := [Error ''boom'']\<rparr>)"
proof -
  have "async_run (pass_error # [pass_switch ov_architect create_ex]) worker_ex =
          Finished (worker_ex\<lparr>output_queue := output_queue worker_ex @
             [Error (str_exn (Exception ''boom''))]\<rparr>)"
    by (rule run_error_fail_stop) (simp_all add: worker_ex_def start_def pass_error_def)
  then show ?thesis by (simp add: worker_ex_def start_def init_def)
qed

subsection \<open>Mode changes\<close>

text \<open>Claim C5. After \<open>N\<close> successful swaps in a row the queue has gained exactly \<open>N\<close>
  messages, all of them mode changes, in the order of the swaps; the \<open>i\<close>-th carries the
  mode of the coder that the \<open>i\<close>-th swap has made current.\<close>

theorem mode_changes_in_order:
  assumes "running w" and "successful_swaps ps w"
  shows "output_queue (state_of (async_run ps w)) =
           output_queue w @ map (\<lambda>c. Mode_change (mode_of c)) (new_coders ps w) \<and>
         length (new_coders ps w) = length ps"
  using assms
proof (induction ps arbitrary: w)
  case Nil
  then show ?case by simp
next
  case (Cons p ps)
  from Cons.prems obtain w' where ns: "\<not> stop_called p"
    and lb: "loop_body p w = Continue w'"
    and rest: "successful_swaps ps w'"
    by (auto split: ctl.splits)
  from lb obtain ov where "swap (create_result p) ov w = Inr w'"
    by (auto simp: loop_body_Continue)
  then have fr: "running w' = running w"
    "output_queue w' = output_queue w @ [Mode_change (mode_of (coder w'))]"
    by (simp_all add: swap_frame)
  with Cons.prems have "running w'" by simp
  from Cons.IH[OF this rest] ns lb fr Cons.prems(1) show ?case by simp
qed

theorem mode_changes_in_order_witness:
  "output_queue (state_of (async_run [pass_switch ov_architect create_ex,
                                      pass_switch ov_ask create_ex] worker_ex)) =
     [Mode_change (PStr ''architect''), Mode_change (PStr ''ask'')]"
proof -
  let ?ps = "[pass_switch ov_architect create_ex, pass_switch ov_ask create_ex]"
  have k1: "switch_kwargs ov_architect c ''edit_format'' = Some (Val (PStr ''architect''))" for c
    by (simp add: switch_kwargs_def ov_architect_def Let_def)
  have k2: "switch_kwargs ov_ask c ''edit_format'' = Some (Val (PStr ''ask''))" for c
    by (simp add: switch_kwargs_def ov_ask_def Let_def)
  have r: "running worker_ex" by (simp add: worker_ex_def start_def)
  have s: "successful_swaps ?ps worker_ex"
    by (simp add: pass_switch_def loop_body_def on_switch_def swap_def create_ex_def Let_def)
  have n: "new_coders ?ps worker_ex =
      [\<lparr>io = PObj 1, args = PObj 2, mcp_servers = PObj 3, mcp_tools = PObj 4,
        edit_format = Some (PStr ''architect''), input_running = None, output_running = None\<rparr>,
       \<lparr>io = PObj 1, args = PObj 2, mcp_servers = PObj 3, mcp_tools = PObj 4,
        edit_format = Some (PStr ''ask''), input_running = None, output_running = None\<rparr>]"
    by (simp add: pass_switch_def loop_body_def on_switch_def swap_def create_ex_def Let_def
        put_def k1 k2 worker_ex_def start_def init_def coder_ex_def)
  have q: "output_queue worker_ex = []"
    by (simp add: worker_ex_def start_def init_def)
  from mode_changes_in_order[OF r s, THEN conjunct1] show ?thesis
    unfolding n q by (simp add: mode_of_def)
qed

text \<open>Claim C10. The mode of the message that a successful swap puts is the
  \<open>edit_format\<close> of the new coder, and the string \<open>code\<close> when the new coder has no such
  attribute or a false one (\<open>None\<close>, the empty string).\<close>

theorem mode_change_carries_edit_format:
  assumes "swap create ov w = Inr w'"
  shows "output_queue w' = output_queue w @
           [Mode_change (case edit_format (coder w') of
                           None \<Rightarrow> PStr ''code''
                         | Some v \<Rightarrow> if truthy v then v else PStr ''code'')]"
  using assms by (auto simp: swap_Inr_iff mode_of_def split: option.splits)

theorem mode_change_carries_edit_format_witness:
  "\<exists>w'. swap create_ex ov_empty_format worker_ex = Inr w' \<and>
        edit_format (coder w') = Some (PStr []) \<and>
        output_queue w' = [Mode_change (PStr ''code'')]"
proof -
  have k: "switch_kwargs ov_empty_format c ''edit_format'' = Some (Val (PStr []))" for c
    by (simp add: switch_kwargs_def ov_empty_format_def Let_def)
  obtain w' where s: "swap create_ex ov_empty_format worker_ex = Inr w'"
    by (simp add: swap_def create_ex_def Let_def)
  then have e: "edit_format (coder w') = Some (PStr [])"
    by (auto simp: swap_Inr_iff create_ex_def k)
  from mode_change_carries_edit_format[OF s] e
  have "output_queue w' = [Mode_change (PStr ''code'')]"
    by (simp add: worker_ex_def start_def init_def)
  with s e show ?thesis by blast
qed

subsection \<open>The keyword arguments of the new coder\<close>

text \<open>Claim C8, as the source has it. Key by key: \<open>mcp_servers\<close> is the empty list,
  \<open>summarize_from_coder\<close> is false, \<open>args\<close> is the \<open>args\<close> of the current coder and
  \<open>num_cache_warming_pings\<close> is zero whatever the overrides say; \<open>show_announcements\<close> is
  absent; on every other key the override wins, and where there is none \<open>io\<close> and
  \<open>from_coder\<close> come from the current coder.\<close>

theorem switch_kwargs_by_key:
  "switch_kwargs ov c k =
     (if k = ''mcp_servers'' then Some (Val (PList []))
      else if k = ''summarize_from_coder'' then Some (Val (PBool False))
      else if k = ''args'' then Some (Val (args c))
      else if k = ''num_cache_warming_pings'' then Some (Val (PInt 0))
      else if k = ''show_announcements'' then None
      else case ov k of
             Some v \<Rightarrow> Some v
           | None \<Rightarrow> if k = ''io'' then Some (Val (io c))
                     else if k = ''from_coder'' then Some (Obj c)
                     else None)"
  by (simp add: switch_kwargs_def Let_def map_add_def split: option.splits)

text \<open>The claim as stated fails on the key \<open>args\<close>: an override for it does not win, the
  new coder gets the \<open>args\<close> of the current coder.\<close>

theorem override_args_counterexample:
  "spec_kwargs ov_args coder_ex ''args'' = Some (Val (PInt 1)) \<and>
   switch_kwargs ov_args coder_ex ''args'' = Some (Val (PObj 2))"
  by (simp add: spec_kwargs_def switch_kwargs_def ov_args_def coder_ex_def Let_def)

text \<open>Claim C9. Whatever the overrides hold, the keyword arguments have no key
  \<open>show_announcements\<close>, and a swap does not depend on what \<open>Coder.create\<close> would do with
  that key: the new coder is never built with it.\<close>

theorem show_announcements_removed:
  "switch_kwargs ov c ''show_announcements'' = None \<and>
   swap create ov w = swap (\<lambda>kw. create (kw(''show_announcements'' := None))) ov w"
proof -
  have a: "switch_kwargs ov c ''show_announcements'' = None" for c
    by (simp add: switch_kwargs_def Let_def)
  have "(switch_kwargs ov (coder w))(''show_announcements'' := None) = switch_kwargs ov (coder w)"
    using a[of "coder w"] by (simp add: fun_upd_idem_iff)
  then show ?thesis using a by (simp add: swap_def Let_def)
qed

subsection \<open>\<open>start\<close>\<close>

text \<open>Claim C7, as the source has it. Every call of \<open>start\<close> sets \<open>running\<close>, creates a new
  daemon thread, starts it and stores it in \<open>thread\<close>, whether or not a thread is alive
  already: \<open>n\<close> calls in a row create \<open>n\<close> threads, all alive, after those that were
  there. The coder, the queues and the loop are left as they are, and the call does not
  depend on what the coder does.\<close>

theorem start_spawns_thread:
  "running (start w) \<and>
   thread (start w) = Some (length (threads w)) \<and>
   threads ((start ^^ n) w) = threads w @ replicate n \<lparr>daemon = True, alive = True\<rparr> \<and>
   coder ((start ^^ n) w) = coder w \<and>
   output_queue ((start ^^ n) w) = output_queue w \<and>
   input_queue ((start ^^ n) w) = input_queue w \<and>
   loop ((start ^^ n) w) = loop w"
proof -
  have "threads ((start ^^ n) w) = threads w @ replicate n \<lparr>daemon = True, alive = True\<rparr> \<and>
        coder ((start ^^ n) w) = coder w \<and>
        output_queue ((start ^^ n) w) = output_queue w \<and>
        input_queue ((start ^^ n) w) = input_queue w \<and>
        loop ((start ^^ n) w) = loop w"
  proof (induction n)
    case 0
    show ?case by simp
  next
    case (Suc n)
    then show ?case
      by (simp add: start_fields replicate_append_same)
  qed
  moreover have "running (start w) \<and> thread (start w) = Some (length (threads w))"
    by (simp add: start_def)
  ultimately show ?thesis by blast
qed

text \<open>The claim as stated fails: a second \<open>start\<close> on a worker whose thread is alive
  changes the worker and starts a second thread.\<close>

theorem start_twice_counterexample:
  "start (start (init coder_ex [] [])) \<noteq> start (init coder_ex [] []) \<and>
   threads (start (start (init coder_ex [] []))) =
     [\<lparr>daemon = True, alive = True\<rparr>, \<lparr>daemon = True, alive = True\<rparr>] \<and>
   thread (start (start (init coder_ex [] []))) = Some 1"
  by (simp add: start_def init_def)

subsection \<open>\<open>_cleanup_loop\<close>\<close>




end
